theory Spec2Isabelle
  imports Complex_Main "HOL-Library.Word" "HOL-Library.Multiset"
begin

section \<open>Data of the bike tracker (main.go)\<close>

text \<open>
  The server of \<^verbatim>\<open>main.go\<close> (lines 1 to 238, the variant with the SQLite store) keeps a
  process-wide map of websocket connections and a table \<^verbatim>\<open>positions\<close>. Each handler is
  modelled as a function from the request, the state and the results of the external
  calls it makes (clock, database, websocket transport) to its answer and the new state.
  The repository also holds an earlier variant without the store, whose
  \<^verbatim>\<open>handleWebSocket\<close>, \<^verbatim>\<open>broadcastPosition\<close> and \<^verbatim>\<open>handleConfig\<close> are the same and whose
  \<^verbatim>\<open>handlePosition\<close> broadcasts without storing; it is not modelled apart.

  A \<^verbatim>\<open>float64\<close> is only carried by the handlers (decoded, stored, encoded), never
  computed with; the decoder yields finite values only, and they are modelled by the real
  numbers they denote. An \<^verbatim>\<open>int64\<close> is a 64-bit word.
\<close>

type_synonym float64 = real
type_synonym int64 = "64 word"

record GPSPosition =
  Latitude :: float64
  Longitude :: float64
  Timestamp :: int64

record Config =
  MapStyle :: string

text \<open>
  What \<^verbatim>\<open>encoding/json\<close> writes. A struct is an object of its tagged fields in
  declaration order; the untyped \<^verbatim>\<open>nil\<close> and a nil slice are \<^verbatim>\<open>null\<close>; any other
  slice is an array.
\<close>

datatype json =
    JNull
  | JString string
  | JFloat float64
  | JInt int64
  | JArray "json list"
  | JObject "(string \<times> json) list"

definition encode_position :: "GPSPosition \<Rightarrow> json" where
  "encode_position p =
     JObject [(''latitude'', JFloat (Latitude p)),
              (''longitude'', JFloat (Longitude p)),
              (''timestamp'', JInt (Timestamp p))]"

definition encode_config :: "Config \<Rightarrow> json" where
  "encode_config c = JObject [(''mapStyle'', JString (MapStyle c))]"

text \<open>
  A Go slice that is only ever \<^verbatim>\<open>nil\<close> or the result of \<^verbatim>\<open>append\<close> is a list: the
  empty list is the nil slice, since \<^verbatim>\<open>append\<close> never returns an empty slice here.
\<close>

fun encode_slice :: "GPSPosition list \<Rightarrow> json" where
  "encode_slice [] = JNull"
| "encode_slice (p # ps) = JArray (map encode_position (p # ps))"

subsection \<open>HTTP requests and answers\<close>

text \<open>
  The body of a request as \<^verbatim>\<open>json.NewDecoder(r.Body).Decode(&position)\<close> reads it:
  \<^item> \<open>NotJSON\<close>: no JSON value can be read (empty body, syntax error);
  \<^item> \<open>Mistyped\<close>: a JSON value that does not fit the struct (a top-level array, string,
    number or boolean; a field that holds something else than a number, a number out of
    the range of its field, a fraction for the timestamp);
  \<^item> \<open>Fields la lo ts\<close>: an object (or \<^verbatim>\<open>null\<close>), with the number it gives for
    \<^verbatim>\<open>latitude\<close>, \<^verbatim>\<open>longitude\<close> and \<^verbatim>\<open>timestamp\<close>, or \<open>None\<close> for a field it does
    not have (or has as \<^verbatim>\<open>null\<close>). Keys the struct does not know are skipped.
  The decoder reads one JSON value; what follows it in the body is not looked at.
\<close>

datatype payload =
    NotJSON
  | Mistyped
  | Fields "float64 option" "float64 option" "int64 option"

record request =
  Method :: string
  Body :: payload

datatype content = Plain string | Json json

record response =
  Status :: nat
  ContentType :: string
  Content :: content

text \<open>\<^verbatim>\<open>http.Error(w, msg, code)\<close>.\<close>

definition http_Error :: "string \<Rightarrow> nat \<Rightarrow> response" where
  "http_Error msg code =
     \<lparr>Status = code, ContentType = ''text/plain; charset=utf-8'', Content = Plain msg\<rparr>"

text \<open>
  \<^verbatim>\<open>w.Header().Set("Content-Type", "application/json"); json.NewEncoder(w).Encode(v)\<close>:
  the first write sends status 200.
\<close>

definition json_response :: "json \<Rightarrow> response" where
  "json_response v = \<lparr>Status = 200, ContentType = ''application/json'', Content = Json v\<rparr>"

datatype error = SyntaxError | UnmarshalTypeError | StorageError | TransportError | ScanError

section \<open>The configuration endpoint\<close>

text \<open>
  \<^verbatim>\<open>handleConfig\<close> (main.go 152-164, the same in the variant without a store). The
  environment is a function from names to values; \<^verbatim>\<open>os.Getenv\<close> gives the empty string for
  a variable that is not set.
\<close>

definition handleConfig :: "(string \<Rightarrow> string) \<Rightarrow> request \<Rightarrow> response" where
  "handleConfig getenv r =
     (let mapStyle = getenv ''MAP_STYLE'';
          mapStyle = (if mapStyle = ''''
                      then ''https://vector.openstreetmap.org/shortbread_v1/tilejson.json''
                      else mapStyle);
          config = \<lparr>MapStyle = mapStyle\<rparr>
      in json_response (encode_config config))"

section \<open>The state of the server\<close>

text \<open>
  A \<^verbatim>\<open>*websocket.Conn\<close> is known by its identity. The table \<^verbatim>\<open>positions\<close> of
  \<^verbatim>\<open>initDB\<close> is the list of its rows in the order of their insertion; \<^verbatim>\<open>created_at\<close>
  is SQLite's \<^verbatim>\<open>CURRENT_TIMESTAMP\<close> at the insertion, a wall-clock time in whole seconds
  (its text \<^verbatim>\<open>YYYY-MM-DD HH:MM:SS\<close> sorts as the time does).
\<close>

type_synonym conn = nat
type_synonym datetime = int

record row =
  rowid :: nat
  latitude :: float64
  longitude :: float64
  timestamp :: int64
  created_at :: datetime

text \<open>What the server does to the outside, in the order it does it.\<close>

datatype event =
    LogLine string
  | DbInsert row
  | WsSend conn GPSPosition
  | WsClose conn

record server =
  connections :: "conn \<rightharpoonup> bool"
  closed_conns :: "conn set"
  delivered :: "conn \<Rightarrow> GPSPosition list"
  positions :: "row list"
  trace :: "event list"

definition log_Printf :: "string \<Rightarrow> server \<Rightarrow> server" where
  "log_Printf msg s = s\<lparr>trace := trace s @ [LogLine msg]\<rparr>"

text \<open>\<^verbatim>\<open>conn.Close()\<close>.\<close>

definition Close :: "conn \<Rightarrow> server \<Rightarrow> server" where
  "Close c s = s\<lparr>closed_conns := insert c (closed_conns s), trace := trace s @ [WsClose c]\<rparr>"

text \<open>\<^verbatim>\<open>delete(connections, conn)\<close>.\<close>

definition delete_conn :: "conn \<Rightarrow> server \<Rightarrow> server" where
  "delete_conn c s = s\<lparr>connections := (connections s)(c := None)\<rparr>"

text \<open>
  \<^verbatim>\<open>conn.WriteJSON(position)\<close>: the transport decides whether the write fails
  (\<open>fails c\<close>); a write to a closed connection always does.
\<close>

definition WriteJSON :: "(conn \<Rightarrow> bool) \<Rightarrow> conn \<Rightarrow> GPSPosition \<Rightarrow> server \<Rightarrow> error option \<times> server" where
  "WriteJSON fails c p s =
     (if c \<in> closed_conns s \<or> fails c then (Some TransportError, s)
      else (None, s\<lparr>delivered := (delivered s)(c := delivered s c @ [p]),
                      trace := trace s @ [WsSend c p]\<rparr>))"

section \<open>Broadcast\<close>

text \<open>
  \<^verbatim>\<open>broadcastPosition\<close> (main.go 139-150, the same in the variant without a store).
  \<^verbatim>\<open>for conn := range connections\<close> produces
  the keys of the map in an order the runtime chooses (\<open>ks\<close>), and does not produce a key
  that was removed before the loop reached it. The read lock taken around the loop has no
  effect on a run of one handler at a time; the section on the lock looks at two.
\<close>

fun range_connections :: "conn list \<Rightarrow> (conn \<Rightarrow> bool) \<Rightarrow> GPSPosition \<Rightarrow> server \<Rightarrow> server" where
  "range_connections [] fails position s = s"
| "range_connections (c # ks) fails position s =
     (if connections s c = None then range_connections ks fails position s
      else
        (case WriteJSON fails c position s of
           (Some err, s1) \<Rightarrow>
             range_connections ks fails position
               (delete_conn c (Close c (log_Printf ''WebSocket write failed'' s1)))
         | (None, s1) \<Rightarrow> range_connections ks fails position s1))"

definition broadcastPosition :: "conn list \<Rightarrow> (conn \<Rightarrow> bool) \<Rightarrow> GPSPosition \<Rightarrow> server \<Rightarrow> server" where
  "broadcastPosition ks fails position s = range_connections ks fails position s"

text \<open>The orders in which \<^verbatim>\<open>range\<close> may produce the keys of the map: each key once.\<close>

definition range_order :: "server \<Rightarrow> conn list \<Rightarrow> bool" where
  "range_order s ks = (distinct ks \<and> set ks = dom (connections s))"

text \<open>A run of broadcasts, one after the other, each with its order, transport and position.\<close>

fun broadcasts :: "(conn list \<times> (conn \<Rightarrow> bool) \<times> GPSPosition) list \<Rightarrow> server \<Rightarrow> server" where
  "broadcasts [] s = s"
| "broadcasts ((ks, fails, position) # bs) s = broadcasts bs (broadcastPosition ks fails position s)"

section \<open>The store\<close>

text \<open>
  \<^verbatim>\<open>savePosition\<close> (main.go 180-184). \<open>exec\<close> is what \<^verbatim>\<open>db.Exec\<close> does: \<open>None\<close> when it
  returns an error, \<open>Some t\<close> when the row is inserted and \<^verbatim>\<open>CURRENT_TIMESTAMP\<close> was
  \<open>t\<close>. \<^verbatim>\<open>AUTOINCREMENT\<close> numbers the row one past the largest \<^verbatim>\<open>id\<close> so far.
\<close>

definition next_rowid :: "row list \<Rightarrow> nat" where
  "next_rowid rs = Suc (fold max (map rowid rs) 0)"

definition insert_row :: "row list \<Rightarrow> GPSPosition \<Rightarrow> datetime \<Rightarrow> row" where
  "insert_row tbl position t =
     \<lparr>rowid = next_rowid tbl, latitude = Latitude position, longitude = Longitude position,
      timestamp = Timestamp position, created_at = t\<rparr>"

definition savePosition :: "datetime option \<Rightarrow> GPSPosition \<Rightarrow> server \<Rightarrow> error option \<times> server" where
  "savePosition exec position s =
     (case exec of
        None \<Rightarrow> (Some StorageError, s)
      | Some t \<Rightarrow>
          (let r = insert_row (positions s) position t
           in (None, s\<lparr>positions := positions s @ [r], trace := trace s @ [DbInsert r]\<rparr>)))"

text \<open>
  Both queries select \<^verbatim>\<open>latitude, longitude, timestamp\<close>, and
  \<^verbatim>\<open>Scan(&pos.Latitude, &pos.Longitude, &pos.Timestamp)\<close> converts them: the three
  columns are \<^verbatim>\<open>NOT NULL\<close> and hold what \<^verbatim>\<open>savePosition\<close> wrote, so the conversion
  succeeds.
\<close>

definition selected :: "row \<Rightarrow> GPSPosition" where
  "selected r = \<lparr>Latitude = latitude r, Longitude = longitude r, Timestamp = timestamp r\<rparr>"

definition Scan :: "row \<Rightarrow> error + GPSPosition" where
  "Scan r = Inr (selected r)"

text \<open>
  The result of \<^verbatim>\<open>SELECT ... FROM positions ORDER BY created_at\<close> is the engine's: an
  error, or the rows of the table sorted by \<^verbatim>\<open>created_at\<close>, rows of equal
  \<^verbatim>\<open>created_at\<close> in an order SQL leaves open. \<open>select_all tbl rs\<close> says that \<open>rs\<close> is such
  a result for the table \<open>tbl\<close>.
\<close>

datatype query = QueryError | Rows "row list"

definition select_all :: "row list \<Rightarrow> row list \<Rightarrow> bool" where
  "select_all tbl rs = (mset rs = mset tbl \<and> sorted (map created_at rs))"

text \<open>
  \<^verbatim>\<open>SELECT ... ORDER BY created_at DESC LIMIT 1\<close> through \<^verbatim>\<open>QueryRow(...).Scan\<close>
  gives an error (\<open>RowError\<close>), \<^verbatim>\<open>sql.ErrNoRows\<close> or a row. \<open>select_last tbl q\<close> says
  that \<open>q\<close> is a result of the query when it succeeds on the table \<open>tbl\<close>:
  \<^verbatim>\<open>sql.ErrNoRows\<close> on an empty table, else a row whose \<^verbatim>\<open>created_at\<close> no other row
  exceeds (which one of several such rows, SQL leaves open).
\<close>

datatype queryrow = RowError | ErrNoRows | Row row

fun select_last :: "row list \<Rightarrow> queryrow \<Rightarrow> bool" where
  "select_last tbl ErrNoRows = (tbl = [])"
| "select_last tbl (Row r) = (r \<in> set tbl \<and> list_all (\<lambda>x. created_at x \<le> created_at r) tbl)"
| "select_last tbl RowError = False"

section \<open>Ingress\<close>

text \<open>
  \<^verbatim>\<open>Decode\<close> fills the fields the object has and leaves the others as they are in
  \<^verbatim>\<open>var position GPSPosition\<close>: zero.
\<close>

fun Decode :: "payload \<Rightarrow> error + GPSPosition" where
  "Decode NotJSON = Inl SyntaxError"
| "Decode Mistyped = Inl UnmarshalTypeError"
| "Decode (Fields la lo ts) =
     Inr \<lparr>Latitude = (case la of None \<Rightarrow> 0 | Some x \<Rightarrow> x),
          Longitude = (case lo of None \<Rightarrow> 0 | Some x \<Rightarrow> x),
          Timestamp = (case ts of None \<Rightarrow> 0 | Some x \<Rightarrow> x)\<rparr>"

text \<open>
  What one call of \<^verbatim>\<open>handlePosition\<close> gets from outside: the clock
  (\<^verbatim>\<open>time.Now().Unix()\<close>), the result of \<^verbatim>\<open>db.Exec\<close>, the order of \<^verbatim>\<open>range\<close> and the
  transport.
\<close>

record env =
  time_Now :: int64
  db_Exec :: "datetime option"
  range_keys :: "conn list"
  write_fails :: "conn \<Rightarrow> bool"

text \<open>\<^verbatim>\<open>handlePosition\<close> (main.go 111-137).\<close>

definition handlePosition :: "env \<Rightarrow> request \<Rightarrow> server \<Rightarrow> response \<times> server" where
  "handlePosition io r s =
     (if Method r \<noteq> ''POST'' then (http_Error ''Method not allowed'' 405, s)
      else
        (case Decode (Body r) of
           Inl err \<Rightarrow> (http_Error ''Invalid JSON'' 400, s)
         | Inr decoded \<Rightarrow>
             (let position = decoded\<lparr>Timestamp := time_Now io\<rparr> in
              (case savePosition (db_Exec io) position s of
                 (Some err, s1) \<Rightarrow>
                   (http_Error ''Failed to save position'' 500,
                    log_Printf ''Failed to save position'' s1)
               | (None, s1) \<Rightarrow>
                   (let s2 = broadcastPosition (range_keys io) (write_fails io) position s1
                    in (json_response (JObject [(''status'', JString ''ok'')]),
                        log_Printf ''Received position'' s2))))))"

section \<open>History and last position\<close>

text \<open>The loop \<^verbatim>\<open>for rows.Next()\<close> of \<^verbatim>\<open>handleHistory\<close>: a row that does not scan is skipped.\<close>

fun rows_Next :: "row list \<Rightarrow> GPSPosition list \<Rightarrow> server \<Rightarrow> GPSPosition list \<times> server" where
  "rows_Next [] ps s = (ps, s)"
| "rows_Next (r # rs) ps s =
     (case Scan r of
        Inl err \<Rightarrow> rows_Next rs ps (log_Printf ''Failed to scan row'' s)
      | Inr pos \<Rightarrow> rows_Next rs (ps @ [pos]) s)"

text \<open>\<^verbatim>\<open>handleHistory\<close> (main.go 186-213); \<open>q\<close> is what \<^verbatim>\<open>db.Query\<close> returns.\<close>

definition handleHistory :: "query \<Rightarrow> request \<Rightarrow> server \<Rightarrow> response \<times> server" where
  "handleHistory q r s =
     (if Method r \<noteq> ''GET'' then (http_Error ''Method not allowed'' 405, s)
      else
        (case q of
           QueryError \<Rightarrow>
             (http_Error ''Failed to fetch history'' 500, log_Printf ''Failed to query history'' s)
         | Rows rs \<Rightarrow>
             (case rows_Next rs [] s of
                (ps, s1) \<Rightarrow> (json_response (encode_slice ps), s1))))"

text \<open>\<^verbatim>\<open>handleLastPosition\<close> (main.go 215-238); \<open>q\<close> is what \<^verbatim>\<open>QueryRow(...).Scan\<close> returns.\<close>

definition handleLastPosition :: "queryrow \<Rightarrow> request \<Rightarrow> server \<Rightarrow> response \<times> server" where
  "handleLastPosition q r s =
     (if Method r \<noteq> ''GET'' then (http_Error ''Method not allowed'' 405, s)
      else
        (case q of
           ErrNoRows \<Rightarrow> (json_response JNull, s)
         | RowError \<Rightarrow>
             (http_Error ''Failed to fetch last position'' 500,
              log_Printf ''Failed to query last position'' s)
         | Row x \<Rightarrow>
             (case Scan x of
                Inl err \<Rightarrow>
                  (http_Error ''Failed to fetch last position'' 500,
                   log_Printf ''Failed to query last position'' s)
              | Inr position \<Rightarrow> (json_response (encode_position position), s))))"

section \<open>The websocket endpoint\<close>

text \<open>
  \<^verbatim>\<open>handleWebSocket\<close> (main.go 83-109). \<open>upgrade\<close> is the result of
  \<^verbatim>\<open>upgrader.Upgrade\<close>: \<open>None\<close> for an error, else the new connection. The handler then
  blocks in \<^verbatim>\<open>conn.ReadMessage()\<close>; \<open>reads\<close> are the results of the reads that have
  returned so far. While none of them is an error the handler is still in its loop
  (\<open>Reading\<close>); at the first error it leaves the loop, runs the deferred function and has
  \<open>Returned\<close>.
\<close>

datatype read_result = Message | ReadError

datatype phase = Aborted | Reading | Returned

fun read_loop :: "read_result list \<Rightarrow> server \<Rightarrow> bool \<times> server" where
  "read_loop [] s = (False, s)"
| "read_loop (Message # reads) s = read_loop reads s"
| "read_loop (ReadError # reads) s = (True, log_Printf ''WebSocket read failed'' s)"

definition handleWebSocket :: "conn option \<Rightarrow> read_result list \<Rightarrow> server \<Rightarrow> phase \<times> server" where
  "handleWebSocket upgrade reads s =
     (case upgrade of
        None \<Rightarrow> (Aborted, log_Printf ''WebSocket upgrade failed'' s)
      | Some c \<Rightarrow>
          (let s1 = log_Printf ''Client connected'' s;
               s2 = s1\<lparr>connections := (connections s1)(c \<mapsto> True)\<rparr>
           in (case read_loop reads s2 of
                 (True, s3) \<Rightarrow> (Returned, delete_conn c (Close c s3))
               | (False, s3) \<Rightarrow> (Reading, s3))))"

section \<open>Two handlers at once: the lock\<close>

text \<open>
  \<^verbatim>\<open>net/http\<close> runs every request in a goroutine of its own, so two calls of
  \<^verbatim>\<open>broadcastPosition\<close> can be under way together, and so can a broadcast and the deferred
  function of \<^verbatim>\<open>handleWebSocket\<close>. Here each goroutine is a program counter, and a step of
  the system is one statement of one goroutine.

  \<^item> \<open>RLock ks\<close>, \<open>Range ks\<close>, \<open>Delete c ks\<close>, \<open>RUnlock\<close>: \<^verbatim>\<open>broadcastPosition\<close> before
    \<^verbatim>\<open>connMutex.RLock()\<close>; in the loop with the keys \<open>ks\<close> still to come; after the write
    to \<open>c\<close> failed and \<open>c\<close> was closed, before \<^verbatim>\<open>delete(connections, conn)\<close>; before the
    deferred \<^verbatim>\<open>connMutex.RUnlock()\<close>.
  \<^item> \<open>Lock c\<close>, \<open>DeleteLocked c\<close>, \<open>Unlock\<close>: the deferred function of
    \<^verbatim>\<open>handleWebSocket\<close> after \<^verbatim>\<open>conn.Close()\<close>: before \<^verbatim>\<open>connMutex.Lock()\<close>, before
    \<^verbatim>\<open>delete(connections, conn)\<close>, before \<^verbatim>\<open>connMutex.Unlock()\<close>.

  A \<^verbatim>\<open>sync.RWMutex\<close> grants the read lock unless a writer holds the lock, and the write
  lock only when nobody holds it; a step that has to wait is \<open>None\<close>. (Go also holds new
  readers back while a writer waits; that only removes schedules, and none of those below
  has a writer.)
\<close>

datatype pc =
    RLock "conn list"
  | Range "conn list"
  | Delete conn "conn list"
  | RUnlock
  | Lock conn
  | DeleteLocked conn
  | Unlock
  | Done

text \<open>The map, its lock and what the server has done so far.\<close>

record shared =
  srv :: server
  readers :: nat
  writer :: bool

text \<open>One statement of one goroutine.\<close>

fun exec :: "(conn \<Rightarrow> bool) \<Rightarrow> GPSPosition \<Rightarrow> pc \<Rightarrow> shared \<Rightarrow> (pc \<times> shared) option" where
  "exec fails p (RLock ks) m =
     (if writer m then None else Some (Range ks, m\<lparr>readers := Suc (readers m)\<rparr>))"
| "exec fails p (Range []) m = Some (RUnlock, m)"
| "exec fails p (Range (c # ks)) m =
     (if connections (srv m) c = None then Some (Range ks, m)
      else
        (case WriteJSON fails c p (srv m) of
           (Some err, s1) \<Rightarrow>
             Some (Delete c ks, m\<lparr>srv := Close c (log_Printf ''WebSocket write failed'' s1)\<rparr>)
         | (None, s1) \<Rightarrow> Some (Range ks, m\<lparr>srv := s1\<rparr>)))"
| "exec fails p (Delete c ks) m = Some (Range ks, m\<lparr>srv := delete_conn c (srv m)\<rparr>)"
| "exec fails p RUnlock m = Some (Done, m\<lparr>readers := readers m - 1\<rparr>)"
| "exec fails p (Lock c) m =
     (if writer m \<or> 0 < readers m then None else Some (DeleteLocked c, m\<lparr>writer := True\<rparr>))"
| "exec fails p (DeleteLocked c) m = Some (Unlock, m\<lparr>srv := delete_conn c (srv m)\<rparr>)"
| "exec fails p Unlock m = Some (Done, m\<lparr>writer := False\<rparr>)"
| "exec fails p Done m = None"

text \<open>A schedule names the goroutine that takes each step.\<close>

fun run :: "(conn \<Rightarrow> bool) \<Rightarrow> GPSPosition \<Rightarrow> nat list \<Rightarrow> shared \<times> pc list \<Rightarrow> (shared \<times> pc list) option" where
  "run fails p [] cfg = Some cfg"
| "run fails p (i # sched) (m, ts) =
     (if i < length ts then
        (case exec fails p (ts ! i) m of
           None \<Rightarrow> None
         | Some (pc', m') \<Rightarrow> run fails p sched (m', ts[i := pc']))
      else None)"

text \<open>
  A goroutine is iterating the map from its first key to its last, and is about to write
  the map at its \<^verbatim>\<open>delete\<close>.
\<close>

fun iterating :: "pc \<Rightarrow> bool" where
  "iterating (Range ks) = True"
| "iterating (Delete c ks) = True"
| "iterating other = False"

fun deleting :: "pc \<Rightarrow> bool" where
  "deleting (Delete c ks) = True"
| "deleting (DeleteLocked c) = True"
| "deleting other = False"

definition delete_during_iteration :: "pc list \<Rightarrow> bool" where
  "delete_during_iteration ts =
     (\<exists>i < length ts. \<exists>j < length ts. i \<noteq> j \<and> deleting (ts ! i) \<and> iterating (ts ! j))"

text \<open>A goroutine run alone to its end; it ends, since each statement brings it nearer.\<close>

fun weight :: "pc \<Rightarrow> nat" where
  "weight (RLock ks) = 2 * length ks + 3"
| "weight (Range ks) = 2 * length ks + 2"
| "weight (Delete c ks) = 2 * length ks + 3"
| "weight RUnlock = 1"
| "weight (Lock c) = 3"
| "weight (DeleteLocked c) = 2"
| "weight Unlock = 1"
| "weight Done = 0"

lemma exec_weight: "exec fails p pc m = Some (pc', m') \<Longrightarrow> weight pc' < weight pc"
  by (induction fails p pc m rule: exec.induct)
     (auto split: if_splits prod.splits option.splits)

function solo :: "(conn \<Rightarrow> bool) \<Rightarrow> GPSPosition \<Rightarrow> pc \<Rightarrow> shared \<Rightarrow> shared" where
  "solo fails p pc m =
     (case exec fails p pc m of
        None \<Rightarrow> m
      | Some (pc', m') \<Rightarrow> solo fails p pc' m')"
  by pat_completeness auto
termination
  by (relation "measure (\<lambda>(fails, p, pc, m). weight pc)") (auto simp: exec_weight)

declare solo.simps [simp del]

text \<open>Who holds the lock, and the invariant of the lock.\<close>

fun holds_read :: "pc \<Rightarrow> bool" where
  "holds_read (Range ks) = True"
| "holds_read (Delete c ks) = True"
| "holds_read RUnlock = True"
| "holds_read other = False"

fun holds_write :: "pc \<Rightarrow> bool" where
  "holds_write (DeleteLocked c) = True"
| "holds_write Unlock = True"
| "holds_write other = False"

definition lock_inv :: "shared \<times> pc list \<Rightarrow> bool" where
  "lock_inv cfg =
     (readers (fst cfg) = length (filter holds_read (snd cfg)) \<and>
      length (filter holds_write (snd cfg)) = (if writer (fst cfg) then 1 else 0) \<and>
      (writer (fst cfg) \<longrightarrow> readers (fst cfg) = 0))"

section \<open>Concrete inputs\<close>

text \<open>
  A server with three viewers and an empty table, and a fix in Berlin; the latitude and the
  longitude are the \<^verbatim>\<open>float64\<close> values nearest to 52.52 and 13.405.
\<close>

definition three_viewers :: server where
  "three_viewers =
     \<lparr>connections = [1 \<mapsto> True, 2 \<mapsto> True, 3 \<mapsto> True], closed_conns = {},
      delivered = (\<lambda>c. []), positions = [], trace = []\<rparr>"

definition berlin :: GPSPosition where
  "berlin =
     \<lparr>Latitude = 7391532888421827 / 140737488355328,
      Longitude = 7546344125612687 / 562949953421312,
      Timestamp = 1700000000\<rparr>"

text \<open>
  A call of the ingress at second 1700000000 on the clock; the store stamps the row with the
  same second, and no write fails.
\<close>

definition quiet_io :: env where
  "quiet_io =
     \<lparr>time_Now = 1700000000, db_Exec = Some 1700000000, range_keys = [1, 2, 3],
      write_fails = (\<lambda>c. False)\<rparr>"

text \<open>The fix posted to the ingress, with a timestamp of the client's.\<close>

definition post_berlin :: request where
  "post_berlin =
     \<lparr>Method = ''POST'',
      Body = Fields (Some (Latitude berlin)) (Some (Longitude berlin)) (Some 42)\<rparr>"

text \<open>
  A second fix, in Potsdam, and two histories of the store. In both the fix of Potsdam is
  posted first and the fix of Berlin second. In \<open>same_second\<close> both arrive within one
  second of the clock. In \<open>clock_back\<close> the wall clock was set back by ten seconds between
  the two calls.
\<close>

definition potsdam :: GPSPosition where
  "potsdam = \<lparr>Latitude = 419 / 8, Longitude = 209 / 16, Timestamp = 1700000000\<rparr>"

definition post_potsdam :: request where
  "post_potsdam =
     \<lparr>Method = ''POST'',
      Body = Fields (Some (Latitude potsdam)) (Some (Longitude potsdam)) None\<rparr>"

definition a_get :: request where
  "a_get = \<lparr>Method = ''GET'', Body = NotJSON\<rparr>"

definition same_second :: server where
  "same_second =
     snd (handlePosition quiet_io post_berlin
       (snd (handlePosition quiet_io post_potsdam three_viewers)))"

definition clock_back :: server where
  "clock_back =
     snd (handlePosition (quiet_io\<lparr>time_Now := 1699999990, db_Exec := Some 1699999990\<rparr>)
       post_berlin
       (snd (handlePosition quiet_io post_potsdam three_viewers)))"

definition row_potsdam :: row where
  "row_potsdam =
     \<lparr>rowid = 1, latitude = Latitude potsdam, longitude = Longitude potsdam,
      timestamp = 1700000000, created_at = 1700000000\<rparr>"

definition row_berlin :: "datetime \<Rightarrow> row" where
  "row_berlin t =
     \<lparr>rowid = 2, latitude = Latitude berlin, longitude = Longitude berlin,
      timestamp = word_of_int t, created_at = t\<rparr>"

text \<open>A call of the ingress one minute after \<open>quiet_io\<close>.\<close>

definition a_minute_later :: env where
  "a_minute_later = quiet_io\<lparr>time_Now := 1700000060, db_Exec := Some 1700000060\<rparr>"

text \<open>
  Two broadcasts about to start on the three viewers; the loop of the first will take the
  keys as 1, 2, 3 and the loop of the second as 2, 1, 3.
\<close>

definition two_broadcasts :: "shared \<times> pc list" where
  "two_broadcasts =
     (\<lparr>srv = three_viewers, readers = 0, writer = False\<rparr>, [RLock [1, 2, 3], RLock [2, 1, 3]])"

section \<open>Broadcast: one failing viewer\<close>

text \<open>What the loop of \<^verbatim>\<open>broadcastPosition\<close> leaves in each field of the state.\<close>

lemma range_connections_connections:
  "connections (range_connections ks fails p s) d =
     (if d \<in> set ks \<and> (d \<in> closed_conns s \<or> fails d) then None else connections s d)"
proof (induction ks arbitrary: s d)
  case Nil
  then show ?case by simp
next
  case (Cons c ks)
  show ?case
    by (auto simp: Cons.IH WriteJSON_def delete_conn_def Close_def log_Printf_def)
qed

lemma range_connections_closed:
  "closed_conns (range_connections ks fails p s) =
     closed_conns s \<union> {d \<in> set ks. connections s d \<noteq> None \<and> (d \<in> closed_conns s \<or> fails d)}"
proof (induction ks arbitrary: s)
  case Nil
  then show ?case by simp
next
  case (Cons c ks)
  show ?case
    by (auto simp: Cons.IH WriteJSON_def delete_conn_def Close_def log_Printf_def)
qed

lemma range_connections_delivered:
  "distinct ks \<Longrightarrow>
   delivered (range_connections ks fails p s) d =
     (if d \<in> set ks \<and> connections s d \<noteq> None \<and> \<not> (d \<in> closed_conns s \<or> fails d)
      then delivered s d @ [p] else delivered s d)"
proof (induction ks arbitrary: s d)
  case Nil
  then show ?case by simp
next
  case (Cons c ks)
  then show ?case
    by (auto simp: WriteJSON_def delete_conn_def Close_def log_Printf_def)
qed

lemma range_connections_positions:
  "positions (range_connections ks fails p s) = positions s"
  by (induction ks arbitrary: s)
     (auto simp: WriteJSON_def delete_conn_def Close_def log_Printf_def)

lemma range_connections_absent:
  "connections s c = None \<Longrightarrow>
   connections (range_connections ks fails p s) c = None \<and>
   delivered (range_connections ks fails p s) c = delivered s c"
  by (induction ks arbitrary: s)
     (auto simp: WriteJSON_def delete_conn_def Close_def log_Printf_def)

lemma broadcasts_absent:
  "connections s c = None \<Longrightarrow>
   connections (broadcasts bs s) c = None \<and> delivered (broadcasts bs s) c = delivered s c"
proof (induction bs arbitrary: s)
  case Nil
  then show ?case by simp
next
  case (Cons b bs)
  obtain ks fails p where b: "b = (ks, fails, p)" by (cases b) auto
  let ?s1 = "broadcastPosition ks fails p s"
  have 1: "connections ?s1 c = None" "delivered ?s1 c = delivered s c"
    using range_connections_absent [OF Cons.prems, of ks fails p]
    by (simp_all add: broadcastPosition_def)
  show ?case using Cons.IH [OF 1(1)] 1(2) by (simp add: b)
qed

text \<open>
  C1: in a broadcast of \<open>p\<close> over the registry, whatever the order of the loop, a registered
  connection \<open>c\<close> whose write fails is closed and removed from the registry; every other
  registered connection whose write succeeds gets \<open>p\<close> in that same call and stays
  registered; and in every later run of broadcasts \<open>c\<close> is absent and gets nothing more.
\<close>

theorem C1_broadcast_isolates_failure:
  assumes ks: "range_order s ks"
    and reg: "connections s c \<noteq> None"
    and bad: "fst (WriteJSON fails c p s) \<noteq> None"
  shows "connections (broadcastPosition ks fails p s) c = None \<and>
         c \<in> closed_conns (broadcastPosition ks fails p s) \<and>
         (\<forall>d. connections s d \<noteq> None \<and> fst (WriteJSON fails d p s) = None \<longrightarrow>
              delivered (broadcastPosition ks fails p s) d = delivered s d @ [p] \<and>
              connections (broadcastPosition ks fails p s) d = connections s d) \<and>
         (\<forall>bs. connections (broadcasts bs (broadcastPosition ks fails p s)) c = None \<and>
               delivered (broadcasts bs (broadcastPosition ks fails p s)) c =
                 delivered (broadcastPosition ks fails p s) c)"
proof -
  let ?s' = "broadcastPosition ks fails p s"
  from ks have dist: "distinct ks" and all: "set ks = dom (connections s)"
    by (simp_all add: range_order_def)
  from bad have fail: "c \<in> closed_conns s \<or> fails c"
    by (simp add: WriteJSON_def split: if_splits)
  from reg all have c_in: "c \<in> set ks" by auto
  have gone: "connections ?s' c = None"
    using c_in fail by (simp add: broadcastPosition_def range_connections_connections)
  have shut: "c \<in> closed_conns ?s'"
    using c_in fail reg by (simp add: broadcastPosition_def range_connections_closed)
  have others: "delivered ?s' d = delivered s d @ [p] \<and> connections ?s' d = connections s d"
    if d: "connections s d \<noteq> None" "fst (WriteJSON fails d p s) = None" for d
  proof -
    from d(2) have ok: "\<not> (d \<in> closed_conns s \<or> fails d)"
      by (simp add: WriteJSON_def split: if_splits)
    from d(1) all have "d \<in> set ks" by auto
    then show ?thesis
      using ok d(1) dist
      by (simp add: broadcastPosition_def range_connections_connections
            range_connections_delivered)
  qed
  have later: "connections (broadcasts bs ?s') c = None \<and>
               delivered (broadcasts bs ?s') c = delivered ?s' c" for bs
    using broadcasts_absent [OF gone] .
  from gone shut others later show ?thesis by blast
qed

text \<open>
  Three viewers, the loop visits 3, 1, 2 and the write to 1 fails: 1 is closed and gone,
  2 and 3 have the fix, and a later broadcast does not find 1.
\<close>

theorem C1_witness:
  "range_order three_viewers [3, 1, 2] \<and> connections three_viewers 1 \<noteq> None \<and>
   fst (WriteJSON (\<lambda>c. c = 1) 1 berlin three_viewers) \<noteq> None \<and>
   connections (broadcastPosition [3, 1, 2] (\<lambda>c. c = 1) berlin three_viewers) 1 = None \<and>
   1 \<in> closed_conns (broadcastPosition [3, 1, 2] (\<lambda>c. c = 1) berlin three_viewers) \<and>
   delivered (broadcastPosition [3, 1, 2] (\<lambda>c. c = 1) berlin three_viewers) 2 = [berlin] \<and>
   delivered (broadcastPosition [3, 1, 2] (\<lambda>c. c = 1) berlin three_viewers) 3 = [berlin] \<and>
   connections (broadcastPosition [3, 1, 2] (\<lambda>c. c = 1) berlin three_viewers) 2 = Some True \<and>
   connections (broadcasts [([1, 2, 3], (\<lambda>c. False), berlin)]
      (broadcastPosition [3, 1, 2] (\<lambda>c. c = 1) berlin three_viewers)) 1 = None"
proof -
  let ?s' = "broadcastPosition [3, 1, 2] (\<lambda>c. c = 1) berlin three_viewers"
  have h1: "range_order three_viewers [3, 1, 2]"
    by (auto simp: range_order_def three_viewers_def)
  have h2: "connections three_viewers 1 \<noteq> None" by (simp add: three_viewers_def)
  have h3: "fst (WriteJSON (\<lambda>c. c = 1) 1 berlin three_viewers) \<noteq> None"
    by (simp add: WriteJSON_def)
  have d2: "connections three_viewers 2 \<noteq> None \<and>
            fst (WriteJSON (\<lambda>c. c = 1) 2 berlin three_viewers) = None"
    by (simp add: three_viewers_def WriteJSON_def)
  have d3: "connections three_viewers 3 \<noteq> None \<and>
            fst (WriteJSON (\<lambda>c. c = 1) 3 berlin three_viewers) = None"
    by (simp add: three_viewers_def WriteJSON_def)
  note t = C1_broadcast_isolates_failure [OF h1 h2 h3]
  from t have gone: "connections ?s' 1 = None" and shut: "1 \<in> closed_conns ?s'"
    by blast+
  from t d2 have r2: "delivered ?s' 2 = delivered three_viewers 2 @ [berlin]"
    and k2: "connections ?s' 2 = connections three_viewers 2"
    by blast+
  from t d3 have r3: "delivered ?s' 3 = delivered three_viewers 3 @ [berlin]" by blast
  from t have later:
    "connections (broadcasts [([1, 2, 3], (\<lambda>c. False), berlin)] ?s') 1 = None"
    by blast
  have e: "delivered three_viewers 2 = []" "delivered three_viewers 3 = []"
    "connections three_viewers 2 = Some True"
    by (simp_all add: three_viewers_def)
  from h1 h2 h3 gone shut r2 r3 k2 later e show ?thesis by simp
qed

section \<open>The configuration endpoint has no method check\<close>

text \<open>
  C10: the configuration handler never looks at the method. For every request, whatever its
  method and body, the answer is 200 with the JSON object \<^verbatim>\<open>{"mapStyle": s}\<close>, where
  \<open>s\<close> is the value of \<^verbatim>\<open>MAP_STYLE\<close>, or the default style when that is empty. The other
  endpoints answer 405 to a method that is not theirs: history and last position to
  anything but GET, the ingress to anything but POST.
\<close>

theorem C10_config_any_method:
  "handleConfig getenv r =
     \<lparr>Status = 200, ContentType = ''application/json'',
      Content = Json (JObject [(''mapStyle'', JString
        (if getenv ''MAP_STYLE'' = ''''
         then ''https://vector.openstreetmap.org/shortbread_v1/tilejson.json''
         else getenv ''MAP_STYLE''))])\<rparr> \<and>
   (Method r \<noteq> ''GET'' \<longrightarrow>
      Status (fst (handleHistory q r s)) = 405 \<and>
      Status (fst (handleLastPosition q' r s)) = 405) \<and>
   (Method r \<noteq> ''POST'' \<longrightarrow> Status (fst (handlePosition io r s)) = 405)"
  by (simp add: handleConfig_def json_response_def encode_config_def handleHistory_def
        handleLastPosition_def handlePosition_def http_Error_def)

text \<open>A DELETE request: the configuration is served, the three other handlers answer 405.\<close>

theorem C10_witness:
  "handleConfig (\<lambda>v. '''') \<lparr>Method = ''DELETE'', Body = NotJSON\<rparr> =
     \<lparr>Status = 200, ContentType = ''application/json'',
      Content = Json (JObject [(''mapStyle'',
        JString ''https://vector.openstreetmap.org/shortbread_v1/tilejson.json'')])\<rparr> \<and>
   Status (fst (handleHistory (Rows []) \<lparr>Method = ''DELETE'', Body = NotJSON\<rparr> three_viewers)) = 405 \<and>
   Status (fst (handleLastPosition ErrNoRows \<lparr>Method = ''DELETE'', Body = NotJSON\<rparr> three_viewers)) = 405 \<and>
   Status (fst (handlePosition
      quiet_io
      \<lparr>Method = ''DELETE'', Body = NotJSON\<rparr> three_viewers)) = 405"
  using C10_config_any_method [of "\<lambda>v. ''''" "\<lparr>Method = ''DELETE'', Body = NotJSON\<rparr>"
      "Rows []" three_viewers ErrNoRows
      quiet_io]
  by simp

section \<open>Ingress: order of effects, timestamp, rejected requests\<close>

text \<open>The broadcast only adds effects, and none of them is an insertion.\<close>

lemma range_connections_trace:
  "\<exists>evs. trace (range_connections ks fails p s) = trace s @ evs \<and>
         list_all (\<lambda>e. \<forall>x. e \<noteq> DbInsert x) evs"
proof (induction ks arbitrary: s)
  case Nil
  then show ?case by simp
next
  case (Cons c ks)
  show ?case
  proof (cases "connections s c = None")
    case True
    then show ?thesis using Cons.IH [of s] by simp
  next
    case reg: False
    show ?thesis
    proof (cases "c \<in> closed_conns s \<or> fails c")
      case True
      let ?s1 = "delete_conn c (Close c (log_Printf ''WebSocket write failed'' s))"
      have step: "range_connections (c # ks) fails p s = range_connections ks fails p ?s1"
        using reg True by (auto simp: WriteJSON_def)
      from Cons.IH [of ?s1] obtain evs where
        evs: "trace (range_connections ks fails p ?s1) = trace ?s1 @ evs"
          "list_all (\<lambda>e. \<forall>x. e \<noteq> DbInsert x) evs" by blast
      have "trace ?s1 = trace s @ [LogLine ''WebSocket write failed'', WsClose c]"
        by (simp add: delete_conn_def Close_def log_Printf_def)
      with evs have
        "trace (range_connections (c # ks) fails p s) =
           trace s @ (LogLine ''WebSocket write failed'' # WsClose c # evs) \<and>
         list_all (\<lambda>e. \<forall>x. e \<noteq> DbInsert x) (LogLine ''WebSocket write failed'' # WsClose c # evs)"
        unfolding step by simp
      then show ?thesis by blast
    next
      case ok: False
      let ?s1 = "s\<lparr>delivered := (delivered s)(c := delivered s c @ [p]),
                    trace := trace s @ [WsSend c p]\<rparr>"
      have step: "range_connections (c # ks) fails p s = range_connections ks fails p ?s1"
        using reg ok by (auto simp: WriteJSON_def)
      from Cons.IH [of ?s1] obtain evs where
        evs: "trace (range_connections ks fails p ?s1) = trace ?s1 @ evs"
          "list_all (\<lambda>e. \<forall>x. e \<noteq> DbInsert x) evs" by blast
      then have
        "trace (range_connections (c # ks) fails p s) = trace s @ (WsSend c p # evs) \<and>
         list_all (\<lambda>e. \<forall>x. e \<noteq> DbInsert x) (WsSend c p # evs)"
        unfolding step by simp
      then show ?thesis by blast
    qed
  qed
qed

text \<open>The four ways through \<^verbatim>\<open>handlePosition\<close>.\<close>

lemma handlePosition_wrong_method:
  "Method r \<noteq> ''POST'' \<Longrightarrow> handlePosition io r s = (http_Error ''Method not allowed'' 405, s)"
  by (simp add: handlePosition_def)

lemma handlePosition_invalid:
  "Method r = ''POST'' \<Longrightarrow> Decode (Body r) = Inl e \<Longrightarrow>
   handlePosition io r s = (http_Error ''Invalid JSON'' 400, s)"
  by (simp add: handlePosition_def)

lemma handlePosition_storage_error:
  "Method r = ''POST'' \<Longrightarrow> Decode (Body r) = Inr d \<Longrightarrow> db_Exec io = None \<Longrightarrow>
   handlePosition io r s =
     (http_Error ''Failed to save position'' 500, log_Printf ''Failed to save position'' s)"
  by (simp add: handlePosition_def savePosition_def)

lemma handlePosition_accepted:
  "Method r = ''POST'' \<Longrightarrow> Decode (Body r) = Inr d \<Longrightarrow> db_Exec io = Some t \<Longrightarrow>
   handlePosition io r s =
     (json_response (JObject [(''status'', JString ''ok'')]),
      log_Printf ''Received position''
        (broadcastPosition (range_keys io) (write_fails io) (d\<lparr>Timestamp := time_Now io\<rparr>)
           (s\<lparr>positions := positions s @ [insert_row (positions s) (d\<lparr>Timestamp := time_Now io\<rparr>) t],
              trace := trace s @ [DbInsert (insert_row (positions s) (d\<lparr>Timestamp := time_Now io\<rparr>) t)]\<rparr>)))"
  by (simp add: handlePosition_def savePosition_def Let_def)

text \<open>
  C3: for a POST whose body decodes, the position (with the server's timestamp) is first
  stored, then broadcast. When \<^verbatim>\<open>db.Exec\<close> fails the answer is 500, nothing is sent to
  any viewer, the registry and the table are as before, and the only effect is one log
  line. When it succeeds the answer is 200 \<^verbatim>\<open>{"status":"ok"}\<close>, the row is in the table,
  the insertion is the first effect of the call (every write to a viewer comes after it),
  and every registered viewer whose write succeeds has the position.
\<close>

theorem C3_persist_before_broadcast:
  fixes io r s d
  defines "p \<equiv> d\<lparr>Timestamp := time_Now io\<rparr>"
    and "s' \<equiv> snd (handlePosition io r s)"
  assumes post: "Method r = ''POST''" and body: "Decode (Body r) = Inr d"
    and ks: "range_order s (range_keys io)"
  shows
    "(db_Exec io = None \<longrightarrow>
        fst (handlePosition io r s) = http_Error ''Failed to save position'' 500 \<and>
        connections s' = connections s \<and> closed_conns s' = closed_conns s \<and>
        delivered s' = delivered s \<and> positions s' = positions s \<and>
        trace s' = trace s @ [LogLine ''Failed to save position'']) \<and>
     (\<forall>t. db_Exec io = Some t \<longrightarrow>
        fst (handlePosition io r s) = json_response (JObject [(''status'', JString ''ok'')]) \<and>
        positions s' = positions s @ [insert_row (positions s) p t] \<and>
        (\<exists>evs. trace s' = trace s @ DbInsert (insert_row (positions s) p t) # evs \<and>
               list_all (\<lambda>e. \<forall>x. e \<noteq> DbInsert x) evs) \<and>
        (\<forall>c. connections s c \<noteq> None \<and> fst (WriteJSON (write_fails io) c p s) = None \<longrightarrow>
             delivered s' c = delivered s c @ [p]))"
proof (intro conjI impI allI)
  assume "db_Exec io = None"
  note h = handlePosition_storage_error [OF post body this, of s]
  show "fst (handlePosition io r s) = http_Error ''Failed to save position'' 500"
    by (simp add: h)
  show "connections s' = connections s" by (simp add: s'_def h log_Printf_def)
  show "closed_conns s' = closed_conns s" by (simp add: s'_def h log_Printf_def)
  show "delivered s' = delivered s" by (simp add: s'_def h log_Printf_def)
  show "positions s' = positions s" by (simp add: s'_def h log_Printf_def)
  show "trace s' = trace s @ [LogLine ''Failed to save position'']"
    by (simp add: s'_def h log_Printf_def)
next
  fix t assume "db_Exec io = Some t"
  note h = handlePosition_accepted [OF post body this, of s, folded p_def]
  let ?x = "insert_row (positions s) p t"
  let ?s1 = "s\<lparr>positions := positions s @ [?x], trace := trace s @ [DbInsert ?x]\<rparr>"
  show "fst (handlePosition io r s) = json_response (JObject [(''status'', JString ''ok'')])"
    by (simp add: h)
  show "positions s' = positions s @ [?x]"
    by (simp add: s'_def h log_Printf_def broadcastPosition_def range_connections_positions)
  show "\<exists>evs. trace s' = trace s @ DbInsert ?x # evs \<and>
          list_all (\<lambda>e. \<forall>x. e \<noteq> DbInsert x) evs"
  proof -
    from range_connections_trace [of "range_keys io" "write_fails io" p ?s1]
    obtain evs where evs:
      "trace (range_connections (range_keys io) (write_fails io) p ?s1) = trace ?s1 @ evs"
      "list_all (\<lambda>e. \<forall>x. e \<noteq> DbInsert x) evs" by blast
    then have "trace s' = trace s @ DbInsert ?x # (evs @ [LogLine ''Received position'']) \<and>
        list_all (\<lambda>e. \<forall>x. e \<noteq> DbInsert x) (evs @ [LogLine ''Received position''])"
      by (simp add: s'_def h log_Printf_def broadcastPosition_def)
    then show ?thesis by blast
  qed
  fix c assume c: "connections s c \<noteq> None \<and> fst (WriteJSON (write_fails io) c p s) = None"
  then have ok: "\<not> (c \<in> closed_conns s \<or> write_fails io c)"
    by (simp add: WriteJSON_def split: if_splits)
  from ks have dist: "distinct (range_keys io)" and all: "set (range_keys io) = dom (connections s)"
    by (simp_all add: range_order_def)
  from c all have "c \<in> set (range_keys io)" by auto
  with ok c dist show "delivered s' c = delivered s c @ [p]"
    by (simp add: s'_def h log_Printf_def broadcastPosition_def range_connections_delivered)
qed


text \<open>
  The fix of Berlin posted with a client timestamp of 42 to the three viewers: stored and
  delivered when the store works, 500 and nothing delivered when it fails.
\<close>

theorem C3_witness:
  "Method post_berlin = ''POST'' \<and> Decode (Body post_berlin) = Inr (berlin\<lparr>Timestamp := 42\<rparr>) \<and>
   range_order three_viewers (range_keys quiet_io) \<and>
   fst (handlePosition quiet_io post_berlin three_viewers) =
     json_response (JObject [(''status'', JString ''ok'')]) \<and>
   positions (snd (handlePosition quiet_io post_berlin three_viewers)) =
     [\<lparr>rowid = 1, latitude = Latitude berlin, longitude = Longitude berlin,
       timestamp = 1700000000, created_at = 1700000000\<rparr>] \<and>
   delivered (snd (handlePosition quiet_io post_berlin three_viewers)) 2 = [berlin] \<and>
   fst (handlePosition (quiet_io\<lparr>db_Exec := None\<rparr>) post_berlin three_viewers) =
     http_Error ''Failed to save position'' 500 \<and>
   delivered (snd (handlePosition (quiet_io\<lparr>db_Exec := None\<rparr>) post_berlin three_viewers)) =
     delivered three_viewers \<and>
   positions (snd (handlePosition (quiet_io\<lparr>db_Exec := None\<rparr>) post_berlin three_viewers)) = []"
proof -
  have h1: "Method post_berlin = ''POST''" by (simp add: post_berlin_def)
  have h2: "Decode (Body post_berlin) = Inr (berlin\<lparr>Timestamp := 42\<rparr>)"
    by (simp add: post_berlin_def berlin_def)
  have h3: "range_order three_viewers (range_keys quiet_io)"
    by (auto simp: range_order_def three_viewers_def quiet_io_def)
  have h3': "range_order three_viewers (range_keys (quiet_io\<lparr>db_Exec := None\<rparr>))"
    using h3 by simp
  have now: "berlin\<lparr>Timestamp := 42, Timestamp := time_Now quiet_io\<rparr> = berlin"
    by (simp add: berlin_def quiet_io_def)
  have ex: "db_Exec quiet_io = Some 1700000000" by (simp add: quiet_io_def)
  have live: "connections three_viewers 2 \<noteq> None \<and>
      fst (WriteJSON (write_fails quiet_io) 2 berlin three_viewers) = None"
    by (simp add: three_viewers_def quiet_io_def WriteJSON_def)
  have row: "insert_row (positions three_viewers) berlin 1700000000 =
      \<lparr>rowid = 1, latitude = Latitude berlin, longitude = Longitude berlin,
        timestamp = 1700000000, created_at = 1700000000\<rparr>"
    by (simp add: insert_row_def next_rowid_def three_viewers_def berlin_def)
  have e: "delivered three_viewers 2 = []" "positions three_viewers = []"
    by (simp_all add: three_viewers_def)
  note ok = C3_persist_before_broadcast [OF h1 h2 h3, unfolded now]
  note ko = C3_persist_before_broadcast [OF h1 h2 h3']
  from ok ex have a: "fst (handlePosition quiet_io post_berlin three_viewers) =
      json_response (JObject [(''status'', JString ''ok'')])"
    and b: "positions (snd (handlePosition quiet_io post_berlin three_viewers)) =
      positions three_viewers @ [insert_row (positions three_viewers) berlin 1700000000]"
    by blast+
  from ok ex live have c: "delivered (snd (handlePosition quiet_io post_berlin three_viewers)) 2 =
      delivered three_viewers 2 @ [berlin]" by blast
  from ko have d: "fst (handlePosition (quiet_io\<lparr>db_Exec := None\<rparr>) post_berlin three_viewers) =
      http_Error ''Failed to save position'' 500"
    and f: "delivered (snd (handlePosition (quiet_io\<lparr>db_Exec := None\<rparr>) post_berlin three_viewers)) =
      delivered three_viewers"
    and g: "positions (snd (handlePosition (quiet_io\<lparr>db_Exec := None\<rparr>) post_berlin three_viewers)) =
      positions three_viewers"
    by simp_all
  from h1 h2 h3 a b c d f g row e show ?thesis by simp
qed


text \<open>
  C4: for every accepted position (a POST with an object as body, stored by the database),
  the row written carries the clock's value \<^verbatim>\<open>time.Now().Unix()\<close> of the call as its
  timestamp, every message the call delivers carries it too, and the whole outcome is the
  same whatever timestamp the client sent (or none).
\<close>

theorem C4_timestamp_is_servers:
  fixes io r s la lo ts
  defines "s' \<equiv> snd (handlePosition io r s)"
  assumes post: "Method r = ''POST''" and body: "Body r = Fields la lo ts"
    and ex: "db_Exec io = Some t"
    and ks: "range_order s (range_keys io)"
  shows
    "(\<exists>x. positions s' = positions s @ [x] \<and> timestamp x = time_Now io) \<and>
     (\<forall>c. delivered s' c = delivered s c \<or>
          (\<exists>p. delivered s' c = delivered s c @ [p] \<and> Timestamp p = time_Now io)) \<and>
     (\<forall>ts'. handlePosition io (r\<lparr>Body := Fields la lo ts'\<rparr>) s = handlePosition io r s)"
proof -
  obtain d where d: "Decode (Body r) = Inr d" by (simp add: body)
  let ?p = "d\<lparr>Timestamp := time_Now io\<rparr>"
  note h = handlePosition_accepted [OF post d ex, of s]
  from ks have dist: "distinct (range_keys io)" by (simp add: range_order_def)
  have "positions s' = positions s @ [insert_row (positions s) ?p t]"
    by (simp add: s'_def h log_Printf_def broadcastPosition_def range_connections_positions)
  moreover have "timestamp (insert_row (positions s) ?p t) = time_Now io"
    by (simp add: insert_row_def)
  ultimately have 1: "\<exists>x. positions s' = positions s @ [x] \<and> timestamp x = time_Now io"
    by blast
  have 2: "delivered s' c = delivered s c \<or>
          (\<exists>p. delivered s' c = delivered s c @ [p] \<and> Timestamp p = time_Now io)" for c
  proof -
    have "delivered s' c = delivered s c \<or> delivered s' c = delivered s c @ [?p]"
      using dist
      by (simp add: s'_def h log_Printf_def broadcastPosition_def range_connections_delivered)
    moreover have "Timestamp ?p = time_Now io" by simp
    ultimately show ?thesis by blast
  qed
  have 3: "handlePosition io (r\<lparr>Body := Fields la lo ts'\<rparr>) s = handlePosition io r s" for ts'
    using post body by (simp add: handlePosition_def)
  from 1 2 3 show ?thesis by blast
qed

text \<open>The client says 42; the row says 1700000000, as it would with no client timestamp.\<close>

theorem C4_witness:
  "Method post_berlin = ''POST'' \<and>
   Body post_berlin = Fields (Some (Latitude berlin)) (Some (Longitude berlin)) (Some 42) \<and>
   db_Exec quiet_io = Some 1700000000 \<and> range_order three_viewers (range_keys quiet_io) \<and>
   map timestamp (positions (snd (handlePosition quiet_io post_berlin three_viewers))) = [time_Now quiet_io] \<and>
   time_Now quiet_io = 1700000000 \<and>
   handlePosition quiet_io (post_berlin\<lparr>Body :=
       Fields (Some (Latitude berlin)) (Some (Longitude berlin)) None\<rparr>) three_viewers =
     handlePosition quiet_io post_berlin three_viewers"
proof -
  have h1: "Method post_berlin = ''POST''" by (simp add: post_berlin_def)
  have h2: "Body post_berlin = Fields (Some (Latitude berlin)) (Some (Longitude berlin)) (Some 42)"
    by (simp add: post_berlin_def)
  have h3: "db_Exec quiet_io = Some 1700000000" by (simp add: quiet_io_def)
  have h4: "range_order three_viewers (range_keys quiet_io)"
    by (auto simp: range_order_def three_viewers_def quiet_io_def)
  have e: "positions three_viewers = []" "time_Now quiet_io = 1700000000"
    by (simp_all add: three_viewers_def quiet_io_def)
  note t = C4_timestamp_is_servers [OF h1 h2 h3 h4]
  from t obtain x where
    "positions (snd (handlePosition quiet_io post_berlin three_viewers)) = positions three_viewers @ [x]"
    "timestamp x = time_Now quiet_io" by blast
  then have a: "map timestamp (positions (snd (handlePosition quiet_io post_berlin three_viewers))) =
      [time_Now quiet_io]" by (simp add: e)
  from t have b: "handlePosition quiet_io (post_berlin\<lparr>Body :=
       Fields (Some (Latitude berlin)) (Some (Longitude berlin)) None\<rparr>) three_viewers =
     handlePosition quiet_io post_berlin three_viewers" by blast
  from h1 h2 h3 h4 a b e show ?thesis by simp
qed

text \<open>
  C5, as the code has it: a request that is not a POST is answered 405, a POST whose body
  the decoder rejects (no JSON value, or a value that does not fit the struct) is answered
  400, and both leave the state of the server exactly as it was. Latitude and longitude
  are not required: a POST whose body is an object is never answered 400, whichever of the
  fields it has; it is answered 200, or 500 when the store fails.
\<close>

theorem C5_rejected_requests:
  "(Method r \<noteq> ''POST'' \<longrightarrow>
      handlePosition io r s = (http_Error ''Method not allowed'' 405, s)) \<and>
   (Method r = ''POST'' \<and> (Body r = NotJSON \<or> Body r = Mistyped) \<longrightarrow>
      handlePosition io r s = (http_Error ''Invalid JSON'' 400, s)) \<and>
   (Method r = ''POST'' \<and> Body r = Fields la lo ts \<longrightarrow>
      Status (fst (handlePosition io r s)) = (if db_Exec io = None then 500 else 200))"
  by (auto simp: handlePosition_def savePosition_def Let_def http_Error_def json_response_def
           split: option.splits)

text \<open>A GET, a body that is no JSON, a body of the wrong type, and an object with no longitude.\<close>

theorem C5_witness:
  "handlePosition quiet_io \<lparr>Method = ''GET'', Body = Fields (Some 1) (Some 2) None\<rparr> three_viewers =
     (http_Error ''Method not allowed'' 405, three_viewers) \<and>
   handlePosition quiet_io \<lparr>Method = ''POST'', Body = NotJSON\<rparr> three_viewers =
     (http_Error ''Invalid JSON'' 400, three_viewers) \<and>
   handlePosition quiet_io \<lparr>Method = ''POST'', Body = Mistyped\<rparr> three_viewers =
     (http_Error ''Invalid JSON'' 400, three_viewers) \<and>
   Status (fst (handlePosition quiet_io \<lparr>Method = ''POST'', Body = Fields (Some 1) None None\<rparr>
     three_viewers)) = 200"
  using C5_rejected_requests [of "\<lparr>Method = ''GET'', Body = Fields (Some 1) (Some 2) None\<rparr>"
      quiet_io three_viewers]
    C5_rejected_requests [of "\<lparr>Method = ''POST'', Body = NotJSON\<rparr>" quiet_io three_viewers]
    C5_rejected_requests [of "\<lparr>Method = ''POST'', Body = Mistyped\<rparr>" quiet_io three_viewers]
    C5_rejected_requests [of "\<lparr>Method = ''POST'', Body = Fields (Some 1) None None\<rparr>"
      quiet_io three_viewers "Some 1" None None]
  by (simp add: quiet_io_def)

text \<open>
  Latitude and longitude are not required. The body \<^verbatim>\<open>{}\<close> has neither: the answer is
  200, and the position (0, 0) is stored and sent to the viewers.
\<close>

theorem C5_counterexample:
  "Status (fst (handlePosition quiet_io \<lparr>Method = ''POST'', Body = Fields None None None\<rparr>
     three_viewers)) = 200 \<and>
   positions (snd (handlePosition quiet_io \<lparr>Method = ''POST'', Body = Fields None None None\<rparr>
     three_viewers)) =
     [\<lparr>rowid = 1, latitude = 0, longitude = 0, timestamp = 1700000000, created_at = 1700000000\<rparr>] \<and>
   delivered (snd (handlePosition quiet_io \<lparr>Method = ''POST'', Body = Fields None None None\<rparr>
     three_viewers)) 1 =
     [\<lparr>Latitude = 0, Longitude = 0, Timestamp = 1700000000\<rparr>]"
  by (simp add: handlePosition_def savePosition_def insert_row_def next_rowid_def
        broadcastPosition_def WriteJSON_def log_Printf_def json_response_def
        quiet_io_def three_viewers_def Let_def)

section \<open>The store: history and last position\<close>

text \<open>The table after an accepted call of the ingress, and the tables of the two histories.\<close>

lemma positions_handlePosition:
  "Method r = ''POST'' \<Longrightarrow> Decode (Body r) = Inr d \<Longrightarrow> db_Exec io = Some t \<Longrightarrow>
   positions (snd (handlePosition io r s)) =
     positions s @ [insert_row (positions s) (d\<lparr>Timestamp := time_Now io\<rparr>) t]"
  by (simp add: handlePosition_accepted log_Printf_def broadcastPosition_def
        range_connections_positions)

lemma positions_potsdam:
  "positions (snd (handlePosition quiet_io post_potsdam three_viewers)) = [row_potsdam]"
proof -
  have "Method post_potsdam = ''POST''" "Decode (Body post_potsdam) = Inr (potsdam\<lparr>Timestamp := 0\<rparr>)"
    "db_Exec quiet_io = Some 1700000000"
    by (simp_all add: post_potsdam_def potsdam_def quiet_io_def)
  from positions_handlePosition [OF this, of three_viewers] show ?thesis
    by (simp add: insert_row_def next_rowid_def row_potsdam_def three_viewers_def
          quiet_io_def potsdam_def)
qed

lemma positions_same_second:
  "positions same_second = [row_potsdam, row_berlin 1700000000]"
proof -
  have "Method post_berlin = ''POST''" "Decode (Body post_berlin) = Inr (berlin\<lparr>Timestamp := 42\<rparr>)"
    "db_Exec quiet_io = Some 1700000000"
    by (simp_all add: post_berlin_def berlin_def quiet_io_def)
  note h = positions_handlePosition [OF this,
      of "snd (handlePosition quiet_io post_potsdam three_viewers)"]
  have "positions same_second =
      [row_potsdam] @ [insert_row [row_potsdam]
         (berlin\<lparr>Timestamp := 42, Timestamp := time_Now quiet_io\<rparr>) 1700000000]"
    unfolding same_second_def h positions_potsdam ..
  then show ?thesis
    by (simp add: insert_row_def next_rowid_def row_potsdam_def row_berlin_def quiet_io_def
          berlin_def)
qed

lemma positions_clock_back:
  "positions clock_back = [row_potsdam, row_berlin 1699999990]"
proof -
  let ?io = "quiet_io\<lparr>time_Now := 1699999990, db_Exec := Some 1699999990\<rparr>"
  have "Method post_berlin = ''POST''" "Decode (Body post_berlin) = Inr (berlin\<lparr>Timestamp := 42\<rparr>)"
    "db_Exec ?io = Some 1699999990"
    by (simp_all add: post_berlin_def berlin_def quiet_io_def)
  note h = positions_handlePosition [OF this,
      of "snd (handlePosition quiet_io post_potsdam three_viewers)"]
  have "positions clock_back =
      [row_potsdam] @ [insert_row [row_potsdam]
         (berlin\<lparr>Timestamp := 42, Timestamp := time_Now ?io\<rparr>) 1699999990]"
    unfolding clock_back_def h positions_potsdam ..
  then show ?thesis
    by (simp add: insert_row_def next_rowid_def row_potsdam_def row_berlin_def quiet_io_def
          berlin_def)
qed

text \<open>The loop over the rows appends the selected columns of each row, in order.\<close>

lemma rows_Next_selected:
  "rows_Next rs ps s = (ps @ map selected rs, s)"
  by (induction rs arbitrary: ps) (simp_all add: Scan_def)

lemma encode_slice_nonempty:
  "ps \<noteq> [] \<Longrightarrow> encode_slice ps = JArray (map encode_position ps)"
  by (cases ps) simp_all

lemma handleHistory_rows:
  "Method r = ''GET'' \<Longrightarrow>
   handleHistory (Rows rs) r s = (json_response (encode_slice (map selected rs)), s)"
  by (simp add: handleHistory_def rows_Next_selected)

text \<open>A table whose stamps strictly increase has one sorted arrangement only: itself.\<close>

lemma select_all_increasing:
  assumes q: "select_all tbl rs" and inc: "sorted_wrt (<) (map created_at tbl)"
  shows "rs = tbl"
proof -
  from q have m: "mset rs = mset tbl" and srt: "sorted (map created_at rs)"
    by (simp_all add: select_all_def)
  from inc have s2: "sorted (map created_at tbl)" and d2: "distinct (map created_at tbl)"
    by (simp_all add: strict_sorted_iff)
  from m have "mset (map created_at rs) = mset (map created_at tbl)" by simp
  with srt s2 have eq: "map created_at rs = map created_at tbl"
    by (metis properties_for_sort)
  from d2 have "inj_on created_at (set tbl)" by (simp add: distinct_map)
  moreover from m have "set rs = set tbl" by (metis set_mset_mset)
  ultimately have "inj_on created_at (set rs \<union> set tbl)" by simp
  with eq show ?thesis by (simp add: inj_on_map_eq_map)
qed

text \<open>The row stamped later than all others is the last of every sorted arrangement.\<close>

lemma select_all_last:
  assumes q: "select_all (tbl @ [y]) rs" and late: "list_all (\<lambda>x. created_at x < created_at y) tbl"
  shows "rs \<noteq> [] \<and> last rs = y"
proof -
  from q have m: "mset rs = mset (tbl @ [y])" and srt: "sorted (map created_at rs)"
    by (simp_all add: select_all_def)
  from m have st: "set rs = set tbl \<union> {y}" by (metis set_mset_mset set_append list.set(1,2) Un_insert_right sup_bot.right_neutral)
  then have ne: "rs \<noteq> []" by auto
  then have lin: "last rs \<in> set rs" by simp
  have "y \<in> set rs" using st by simp
  then obtain i where i: "i < length rs" "rs ! i = y" by (auto simp: in_set_conv_nth)
  have "created_at y \<le> created_at (last rs)"
  proof -
    from i ne have "i \<le> length rs - 1" by simp
    with srt i ne have "map created_at rs ! i \<le> map created_at rs ! (length rs - 1)"
      by (intro sorted_nth_mono) simp_all
    with i ne show ?thesis by (simp add: last_conv_nth)
  qed
  moreover have "created_at x < created_at y" if "x \<in> set tbl" for x
    using late that by (simp add: list_all_iff)
  ultimately have "last rs \<notin> set tbl" by force
  with lin st have "last rs = y" by auto
  with ne show ?thesis by simp
qed

lemma select_last_latest:
  assumes q: "select_last (tbl @ [y]) q" and late: "list_all (\<lambda>x. created_at x < created_at y) tbl"
  shows "q = Row y"
proof (cases q)
  case RowError
  with q show ?thesis by simp
next
  case ErrNoRows
  with q show ?thesis by simp
next
  case (Row x)
  with q have x: "x \<in> set tbl \<or> x = y" and mx: "created_at y \<le> created_at x"
    by (auto simp: list_all_iff)
  have "created_at z < created_at y" if "z \<in> set tbl" for z
    using late that by (simp add: list_all_iff)
  with x mx have "x = y" by force
  with Row show ?thesis by simp
qed

text \<open>
  C6, as the code has it: a GET of the history whose query succeeds is answered 200 and
  changes nothing; the rows it lists are all the stored rows, sorted by \<^verbatim>\<open>created_at\<close>
  (the store's stamp in whole seconds of the wall clock), not by insertion; when at least
  one row is stored the body is the JSON array of their positions in that order; and when
  the stamps of the table strictly increase in the order of insertion, that order is the
  order of insertion.
\<close>

theorem C6_history_by_created_at:
  assumes get: "Method r = ''GET''" and q: "select_all (positions s) rs"
  shows "Status (fst (handleHistory (Rows rs) r s)) = 200 \<and>
         snd (handleHistory (Rows rs) r s) = s \<and>
         mset rs = mset (positions s) \<and> sorted (map created_at rs) \<and>
         (positions s \<noteq> [] \<longrightarrow>
            Content (fst (handleHistory (Rows rs) r s)) =
              Json (JArray (map (\<lambda>x. encode_position (selected x)) rs))) \<and>
         (sorted_wrt (<) (map created_at (positions s)) \<longrightarrow> rs = positions s)"
proof -
  note h = handleHistory_rows [OF get, of rs s]
  from q have m: "mset rs = mset (positions s)" and srt: "sorted (map created_at rs)"
    by (simp_all add: select_all_def)
  have arr: "Content (fst (handleHistory (Rows rs) r s)) =
      Json (JArray (map (\<lambda>x. encode_position (selected x)) rs))" if "positions s \<noteq> []"
  proof -
    from m that have "rs \<noteq> []" by auto
    then show ?thesis
      by (simp add: h json_response_def encode_slice_nonempty comp_def)
  qed
  have st: "Status (fst (handleHistory (Rows rs) r s)) = 200"
    "snd (handleHistory (Rows rs) r s) = s"
    by (simp_all add: h json_response_def)
  from st m srt arr select_all_increasing [OF q] show ?thesis by blast
qed

text \<open>Two rows of the same second, listed in the order of their insertion.\<close>

theorem C6_witness:
  "Method a_get = ''GET'' \<and>
   select_all (positions same_second) [row_potsdam, row_berlin 1700000000] \<and>
   positions same_second \<noteq> [] \<and>
   Status (fst (handleHistory (Rows [row_potsdam, row_berlin 1700000000]) a_get same_second)) = 200 \<and>
   Content (fst (handleHistory (Rows [row_potsdam, row_berlin 1700000000]) a_get same_second)) =
     Json (JArray [encode_position potsdam, encode_position berlin])"
proof -
  have h1: "Method a_get = ''GET''" by (simp add: a_get_def)
  have h2: "select_all (positions same_second) [row_potsdam, row_berlin 1700000000]"
    by (simp add: positions_same_second select_all_def row_potsdam_def row_berlin_def)
  have h3: "positions same_second \<noteq> []" by (simp add: positions_same_second)
  have e: "selected row_potsdam = potsdam" "selected (row_berlin 1700000000) = berlin"
    by (simp_all add: selected_def row_potsdam_def row_berlin_def potsdam_def berlin_def)
  note t = C6_history_by_created_at [OF h1 h2]
  from t have a:
    "Status (fst (handleHistory (Rows [row_potsdam, row_berlin 1700000000]) a_get same_second)) = 200"
    by blast
  from t h3 have
    "Content (fst (handleHistory (Rows [row_potsdam, row_berlin 1700000000]) a_get same_second)) =
       Json (JArray (map (\<lambda>x. encode_position (selected x)) [row_potsdam, row_berlin 1700000000]))"
    by blast
  with h1 h2 h3 a e show ?thesis by simp
qed

text \<open>
  Two inputs on which the history is not a JSON array in the order of insertion. On an
  empty store the body is \<^verbatim>\<open>null\<close>, the encoding of the nil slice, not an empty array.
  And after the clock was set back between two insertions, the only result the query can
  give lists the fix inserted last (Berlin) first.
\<close>

theorem C6_counterexample:
  "positions three_viewers = [] \<and> select_all (positions three_viewers) [] \<and>
   handleHistory (Rows []) a_get three_viewers = (json_response JNull, three_viewers) \<and>
   positions clock_back = [row_potsdam, row_berlin 1699999990] \<and>
   select_all (positions clock_back) [row_berlin 1699999990, row_potsdam] \<and>
   \<not> select_all (positions clock_back) [row_potsdam, row_berlin 1699999990] \<and>
   fst (handleHistory (Rows [row_berlin 1699999990, row_potsdam]) a_get clock_back) =
     json_response (JArray
       [encode_position (berlin\<lparr>Timestamp := 1699999990\<rparr>), encode_position potsdam])"
proof -
  have e: "selected row_potsdam = potsdam"
    "selected (row_berlin 1699999990) = berlin\<lparr>Timestamp := 1699999990\<rparr>"
    by (simp_all add: selected_def row_potsdam_def row_berlin_def potsdam_def berlin_def)
  have g: "Method a_get = ''GET''" by (simp add: a_get_def)
  show ?thesis
    by (simp add: handleHistory_rows [OF g] positions_clock_back e)
       (simp add: select_all_def three_viewers_def row_potsdam_def row_berlin_def)
qed



text \<open>The last position.\<close>

lemma handleLastPosition_row:
  "Method r = ''GET'' \<Longrightarrow>
   handleLastPosition (Row x) r s = (json_response (encode_position (selected x)), s)"
  by (simp add: handleLastPosition_def Scan_def)

text \<open>
  C7, as the code has it: for a GET whose query succeeds, an empty store is answered with
  JSON \<^verbatim>\<open>null\<close> (200); otherwise the answer is the position of a stored row whose
  \<^verbatim>\<open>created_at\<close> no other row exceeds; it is the row inserted last whenever that row's
  \<^verbatim>\<open>created_at\<close> is later than the \<^verbatim>\<open>created_at\<close> of every other row.
\<close>

theorem C7_last_position_by_created_at:
  assumes get: "Method r = ''GET''" and q: "select_last (positions s) q"
  shows "(positions s = [] \<longrightarrow> handleLastPosition q r s = (json_response JNull, s)) \<and>
         (positions s \<noteq> [] \<longrightarrow>
            (\<exists>x. q = Row x \<and> x \<in> set (positions s) \<and>
                 list_all (\<lambda>y. created_at y \<le> created_at x) (positions s) \<and>
                 handleLastPosition q r s = (json_response (encode_position (selected x)), s))) \<and>
         (\<forall>tbl y. positions s = tbl @ [y] \<and> list_all (\<lambda>x. created_at x < created_at y) tbl \<longrightarrow>
            handleLastPosition q r s = (json_response (encode_position (selected y)), s))"
proof (intro conjI impI allI)
  assume "positions s = []"
  with q have "q = ErrNoRows" by (cases q) simp_all
  with get show "handleLastPosition q r s = (json_response JNull, s)"
    by (simp add: handleLastPosition_def)
next
  assume ne: "positions s \<noteq> []"
  with q obtain x where x: "q = Row x" by (cases q) simp_all
  with q have "x \<in> set (positions s)" "list_all (\<lambda>y. created_at y \<le> created_at x) (positions s)"
    by simp_all
  with x handleLastPosition_row [OF get, of x s]
  show "\<exists>x. q = Row x \<and> x \<in> set (positions s) \<and>
            list_all (\<lambda>y. created_at y \<le> created_at x) (positions s) \<and>
            handleLastPosition q r s = (json_response (encode_position (selected x)), s)"
    by blast
next
  fix tbl y
  assume a: "positions s = tbl @ [y] \<and> list_all (\<lambda>x. created_at x < created_at y) tbl"
  with q have "q = Row y" using select_last_latest [of tbl y q] by simp
  with handleLastPosition_row [OF get, of y s]
  show "handleLastPosition q r s = (json_response (encode_position (selected y)), s)"
    by simp
qed

text \<open>The empty store, and the store after one fix.\<close>

theorem C7_witness:
  "Method a_get = ''GET'' \<and> select_last (positions three_viewers) ErrNoRows \<and>
   handleLastPosition ErrNoRows a_get three_viewers = (json_response JNull, three_viewers) \<and>
   select_last (positions (snd (handlePosition quiet_io post_potsdam three_viewers))) (Row row_potsdam) \<and>
   fst (handleLastPosition (Row row_potsdam) a_get
          (snd (handlePosition quiet_io post_potsdam three_viewers))) =
     json_response (encode_position potsdam)"
proof -
  let ?s = "snd (handlePosition quiet_io post_potsdam three_viewers)"
  have h1: "Method a_get = ''GET''" by (simp add: a_get_def)
  have h2: "select_last (positions three_viewers) ErrNoRows" by (simp add: three_viewers_def)
  have h3: "select_last (positions ?s) (Row row_potsdam)" by (simp add: positions_potsdam)
  have e: "positions three_viewers = []" "positions ?s = [] @ [row_potsdam]"
    "list_all (\<lambda>x. created_at x < created_at row_potsdam) []"
    "selected row_potsdam = potsdam"
    by (simp add: three_viewers_def, simp add: positions_potsdam, simp,
        simp add: selected_def row_potsdam_def potsdam_def)
  from C7_last_position_by_created_at [OF h1 h2] e(1)
  have a: "handleLastPosition ErrNoRows a_get three_viewers = (json_response JNull, three_viewers)"
    by blast
  from C7_last_position_by_created_at [OF h1 h3] e(2,3)
  have "handleLastPosition (Row row_potsdam) a_get ?s =
      (json_response (encode_position (selected row_potsdam)), ?s)"
    by blast
  with h1 h2 h3 a e(4) show ?thesis by simp
qed

text \<open>
  The row inserted last is not always the answer. When two fixes are stored within one
  second, the query may give the first of them (Potsdam) though Berlin was inserted last;
  after the clock was set back it can give nothing but the first.
\<close>

theorem C7_counterexample:
  "positions same_second = [row_potsdam, row_berlin 1700000000] \<and>
   select_last (positions same_second) (Row row_potsdam) \<and>
   fst (handleLastPosition (Row row_potsdam) a_get same_second) =
     json_response (encode_position potsdam) \<and>
   positions clock_back = [row_potsdam, row_berlin 1699999990] \<and>
   select_last (positions clock_back) (Row row_potsdam) \<and>
   \<not> select_last (positions clock_back) (Row (row_berlin 1699999990)) \<and>
   fst (handleLastPosition (Row row_potsdam) a_get clock_back) =
     json_response (encode_position potsdam) \<and>
   potsdam \<noteq> berlin"
proof -
  have g: "Method a_get = ''GET''" by (simp add: a_get_def)
  have e: "selected row_potsdam = potsdam"
    by (simp add: selected_def row_potsdam_def potsdam_def)
  show ?thesis
    by (simp add: handleLastPosition_row [OF g] positions_clock_back positions_same_second e)
       (simp add: row_potsdam_def row_berlin_def potsdam_def berlin_def)
qed


text \<open>
  C8, as the code has it: when a POST with latitude \<open>la\<close> and longitude \<open>lo\<close> is stored,
  and the store stamps it later than every row it already holds, then every result of the
  last-position query is answered with \<open>la\<close>, \<open>lo\<close> and the clock's value read in the
  ingress call, and in every result of the history query that position is the last
  element of the array.
\<close>

theorem C8_round_trip:
  fixes io r s g la lo ts t
  defines "s' \<equiv> snd (handlePosition io r s)"
    and "p \<equiv> \<lparr>Latitude = la, Longitude = lo, Timestamp = time_Now io\<rparr>"
  assumes post: "Method r = ''POST''" and body: "Body r = Fields (Some la) (Some lo) ts"
    and ex: "db_Exec io = Some t"
    and late: "list_all (\<lambda>x. created_at x < t) (positions s)"
    and get: "Method g = ''GET''"
  shows "(\<forall>q. select_last (positions s') q \<longrightarrow>
            handleLastPosition q g s' = (json_response (encode_position p), s')) \<and>
         (\<forall>rs. select_all (positions s') rs \<longrightarrow>
            rs \<noteq> [] \<and> selected (last rs) = p \<and>
            Content (fst (handleHistory (Rows rs) g s')) =
              Json (JArray (map (\<lambda>x. encode_position (selected x)) rs)))"
proof -
  let ?d = "\<lparr>Latitude = la, Longitude = lo,
             Timestamp = (case ts of None \<Rightarrow> 0 | Some x \<Rightarrow> x)\<rparr>"
  let ?y = "insert_row (positions s) (?d\<lparr>Timestamp := time_Now io\<rparr>) t"
  have d: "Decode (Body r) = Inr ?d" by (simp add: body)
  have tbl: "positions s' = positions s @ [?y]"
    unfolding s'_def by (rule positions_handlePosition [OF post d ex])
  from late have late': "list_all (\<lambda>x. created_at x < created_at ?y) (positions s)"
    by (simp add: insert_row_def)
  have 1: "handleLastPosition q g s' = (json_response (encode_position p), s')"
    if "select_last (positions s') q" for q
  proof -
    from that tbl have "q = Row ?y" using select_last_latest [OF _ late'] by simp
    then show ?thesis using handleLastPosition_row [OF get, of ?y s']
      by (simp add: selected_def insert_row_def p_def)
  qed
  have 2: "rs \<noteq> [] \<and> selected (last rs) = p \<and>
      Content (fst (handleHistory (Rows rs) g s')) =
        Json (JArray (map (\<lambda>x. encode_position (selected x)) rs))"
    if "select_all (positions s') rs" for rs
  proof -
    from that tbl have "rs \<noteq> [] \<and> last rs = ?y" using select_all_last [OF _ late'] by simp
    then show ?thesis
      by (simp add: handleHistory_rows [OF get] json_response_def encode_slice_nonempty
            comp_def selected_def insert_row_def p_def)
  qed
  from 1 2 show ?thesis by blast
qed

text \<open>Berlin (52.52, 13.405) posted a minute after Potsdam.\<close>

theorem C8_witness:
  "Method post_berlin = ''POST'' \<and>
   Body post_berlin = Fields (Some (Latitude berlin)) (Some (Longitude berlin)) (Some 42) \<and>
   db_Exec a_minute_later = Some 1700000060 \<and>
   list_all (\<lambda>x. created_at x < 1700000060)
     (positions (snd (handlePosition quiet_io post_potsdam three_viewers))) \<and>
   Method a_get = ''GET'' \<and>
   select_last (positions (snd (handlePosition a_minute_later post_berlin
      (snd (handlePosition quiet_io post_potsdam three_viewers))))) (Row (row_berlin 1700000060)) \<and>
   fst (handleLastPosition (Row (row_berlin 1700000060)) a_get
      (snd (handlePosition a_minute_later post_berlin
         (snd (handlePosition quiet_io post_potsdam three_viewers))))) =
     json_response (encode_position (berlin\<lparr>Timestamp := 1700000060\<rparr>)) \<and>
   select_all (positions (snd (handlePosition a_minute_later post_berlin
      (snd (handlePosition quiet_io post_potsdam three_viewers)))))
      [row_potsdam, row_berlin 1700000060] \<and>
   selected (last [row_potsdam, row_berlin 1700000060]) = berlin\<lparr>Timestamp := 1700000060\<rparr>"
proof -
  let ?s = "snd (handlePosition quiet_io post_potsdam three_viewers)"
  let ?s' = "snd (handlePosition a_minute_later post_berlin ?s)"
  have h1: "Method post_berlin = ''POST''" by (simp add: post_berlin_def)
  have h2: "Body post_berlin = Fields (Some (Latitude berlin)) (Some (Longitude berlin)) (Some 42)"
    by (simp add: post_berlin_def)
  have h3: "db_Exec a_minute_later = Some 1700000060" by (simp add: a_minute_later_def)
  have h4: "list_all (\<lambda>x. created_at x < 1700000060) (positions ?s)"
    by (simp add: positions_potsdam row_potsdam_def)
  have h5: "Method a_get = ''GET''" by (simp add: a_get_def)
  have d: "Decode (Body post_berlin) = Inr (berlin\<lparr>Timestamp := 42\<rparr>)"
    by (simp add: post_berlin_def berlin_def)
  have "positions ?s' = [row_potsdam] @ [insert_row [row_potsdam]
      (berlin\<lparr>Timestamp := 42, Timestamp := time_Now a_minute_later\<rparr>) 1700000060]"
    unfolding positions_handlePosition [OF h1 d h3] positions_potsdam ..
  then have tbl: "positions ?s' = [row_potsdam, row_berlin 1700000060]"
    by (simp add: insert_row_def next_rowid_def row_potsdam_def row_berlin_def
          a_minute_later_def berlin_def)
  have q1: "select_last (positions ?s') (Row (row_berlin 1700000060))"
    by (simp add: tbl row_potsdam_def row_berlin_def)
  have q2: "select_all (positions ?s') [row_potsdam, row_berlin 1700000060]"
    by (simp add: tbl select_all_def row_potsdam_def row_berlin_def)
  have p: "\<lparr>Latitude = Latitude berlin, Longitude = Longitude berlin,
            Timestamp = time_Now a_minute_later\<rparr> = berlin\<lparr>Timestamp := 1700000060\<rparr>"
    by (simp add: a_minute_later_def berlin_def)
  note t = C8_round_trip [OF h1 h2 h3 h4 h5, unfolded p]
  from t q1 have a: "handleLastPosition (Row (row_berlin 1700000060)) a_get ?s' =
      (json_response (encode_position (berlin\<lparr>Timestamp := 1700000060\<rparr>)), ?s')"
    by blast
  from t q2 have b: "selected (last [row_potsdam, row_berlin 1700000060]) =
      berlin\<lparr>Timestamp := 1700000060\<rparr>"
    by blast
  from h1 h2 h3 h4 h5 q1 q2 a b show ?thesis by simp
qed

text \<open>
  Without the condition on the stamps the round trip fails. Berlin is posted in the same
  second as Potsdam before it and accepted with 200: the last-position query may give
  Potsdam. With the clock set back, the history can only end with Potsdam.
\<close>

theorem C8_counterexample:
  "same_second = snd (handlePosition quiet_io post_berlin
      (snd (handlePosition quiet_io post_potsdam three_viewers))) \<and>
   Status (fst (handlePosition quiet_io post_berlin
      (snd (handlePosition quiet_io post_potsdam three_viewers)))) = 200 \<and>
   select_last (positions same_second) (Row row_potsdam) \<and>
   fst (handleLastPosition (Row row_potsdam) a_get same_second) =
     json_response (encode_position potsdam) \<and>
   Latitude potsdam \<noteq> Latitude berlin \<and>
   select_all (positions clock_back) [row_berlin 1699999990, row_potsdam] \<and>
   \<not> select_all (positions clock_back) [row_potsdam, row_berlin 1699999990] \<and>
   selected (last [row_berlin 1699999990, row_potsdam]) = potsdam"
proof -
  have g: "Method a_get = ''GET''" by (simp add: a_get_def)
  have e: "selected row_potsdam = potsdam"
    by (simp add: selected_def row_potsdam_def potsdam_def)
  have ok: "Status (fst (handlePosition quiet_io post_berlin
      (snd (handlePosition quiet_io post_potsdam three_viewers)))) = 200"
    using handlePosition_accepted [of post_berlin "berlin\<lparr>Timestamp := 42\<rparr>" quiet_io
        1700000000 "snd (handlePosition quiet_io post_potsdam three_viewers)"]
    by (simp add: post_berlin_def berlin_def quiet_io_def json_response_def)
  show ?thesis
    by (simp add: ok handleLastPosition_row [OF g] positions_clock_back positions_same_second e)
       (simp add: same_second_def select_all_def row_potsdam_def row_berlin_def potsdam_def
          berlin_def)
qed

section \<open>The life of a connection\<close>

text \<open>The loop ends at the first read that fails, and only there.\<close>

lemma read_loop_first_error:
  "read_loop reads s =
     (if ReadError \<in> set reads then (True, log_Printf ''WebSocket read failed'' s) else (False, s))"
proof (induction reads)
  case Nil
  then show ?case by simp
next
  case (Cons x reads)
  then show ?case by (cases x) simp_all
qed

text \<open>
  C9: when the upgrade fails the handler returns at once; registry, transports, deliveries
  and table are as before (one log line is written). When it succeeds with the connection
  \<open>c\<close>: as long as no read has failed the handler is in its loop and \<open>c\<close> is registered
  (and as open as it was); once a read has failed the handler has returned, and \<open>c\<close> is
  removed from the registry and closed. No other connection is touched.
\<close>

theorem C9_connection_lifecycle:
  fixes c reads s
  defines "s' \<equiv> snd (handleWebSocket (Some c) reads s)"
  shows
    "handleWebSocket None reads s = (Aborted, log_Printf ''WebSocket upgrade failed'' s) \<and>
     connections (log_Printf ''WebSocket upgrade failed'' s) = connections s \<and>
     closed_conns (log_Printf ''WebSocket upgrade failed'' s) = closed_conns s \<and>
     delivered (log_Printf ''WebSocket upgrade failed'' s) = delivered s \<and>
     positions (log_Printf ''WebSocket upgrade failed'' s) = positions s \<and>
     (ReadError \<notin> set reads \<longrightarrow>
        fst (handleWebSocket (Some c) reads s) = Reading \<and>
        connections s' c = Some True \<and> (c \<in> closed_conns s' \<longleftrightarrow> c \<in> closed_conns s)) \<and>
     (ReadError \<in> set reads \<longrightarrow>
        fst (handleWebSocket (Some c) reads s) = Returned \<and>
        connections s' c = None \<and> c \<in> closed_conns s') \<and>
     (\<forall>d. d \<noteq> c \<longrightarrow>
        connections s' d = connections s d \<and> (d \<in> closed_conns s' \<longleftrightarrow> d \<in> closed_conns s))"
  by (simp add: s'_def handleWebSocket_def read_loop_first_error log_Printf_def Close_def
        delete_conn_def Let_def)

text \<open>A fourth viewer: still reading after two messages, closed and gone after a read error.\<close>

theorem C9_witness:
  "ReadError \<notin> set [Message, Message] \<and>
   fst (handleWebSocket (Some 4) [Message, Message] three_viewers) = Reading \<and>
   connections (snd (handleWebSocket (Some 4) [Message, Message] three_viewers)) 4 = Some True \<and>
   4 \<notin> closed_conns (snd (handleWebSocket (Some 4) [Message, Message] three_viewers)) \<and>
   ReadError \<in> set [Message, ReadError] \<and>
   fst (handleWebSocket (Some 4) [Message, ReadError] three_viewers) = Returned \<and>
   connections (snd (handleWebSocket (Some 4) [Message, ReadError] three_viewers)) 4 = None \<and>
   4 \<in> closed_conns (snd (handleWebSocket (Some 4) [Message, ReadError] three_viewers)) \<and>
   connections (snd (handleWebSocket (Some 4) [Message, ReadError] three_viewers)) 1 = Some True \<and>
   connections (snd (handleWebSocket None [] three_viewers)) = connections three_viewers"
proof -
  have e: "4 \<notin> closed_conns three_viewers" "connections three_viewers 1 = Some True"
    "ReadError \<notin> set [Message, Message]" "ReadError \<in> set [Message, ReadError]" "(1::nat) \<noteq> 4"
    by (simp_all add: three_viewers_def)
  note a = C9_connection_lifecycle [of "[Message, Message]" three_viewers 4]
  note b = C9_connection_lifecycle [of "[Message, ReadError]" three_viewers 4]
  note n = C9_connection_lifecycle [of "[]" three_viewers 4]
  from a e have 1: "fst (handleWebSocket (Some 4) [Message, Message] three_viewers) = Reading"
    "connections (snd (handleWebSocket (Some 4) [Message, Message] three_viewers)) 4 = Some True"
    "4 \<notin> closed_conns (snd (handleWebSocket (Some 4) [Message, Message] three_viewers))"
    by blast+
  from b e have 2: "fst (handleWebSocket (Some 4) [Message, ReadError] three_viewers) = Returned"
    "connections (snd (handleWebSocket (Some 4) [Message, ReadError] three_viewers)) 4 = None"
    "4 \<in> closed_conns (snd (handleWebSocket (Some 4) [Message, ReadError] three_viewers))"
    by blast+
  from b e have 3:
    "connections (snd (handleWebSocket (Some 4) [Message, ReadError] three_viewers)) 1 = Some True"
    by metis
  from n have 4: "connections (snd (handleWebSocket None [] three_viewers)) = connections three_viewers"
    by simp
  from e 1 2 3 4 show ?thesis by simp
qed

section \<open>The lock of the registry\<close>

text \<open>
  Run alone, the goroutine of a broadcast does what \<^verbatim>\<open>broadcastPosition\<close> does, and leaves
  the lock as it found it.
\<close>

lemma solo_Done: "solo fails p Done m = m"
  by (simp add: solo.simps)

lemma solo_RUnlock: "solo fails p RUnlock m = m\<lparr>readers := readers m - 1\<rparr>"
  by (simp add: solo.simps [of _ _ RUnlock] solo_Done)

lemma solo_Range:
  "solo fails p (Range ks) m =
     m\<lparr>srv := range_connections ks fails p (srv m), readers := readers m - 1\<rparr>"
proof (induction ks arbitrary: m)
  case Nil
  show ?case by (simp add: solo.simps [of _ _ "Range []"] solo_RUnlock)
next
  case (Cons c ks)
  show ?case
  proof (cases "connections (srv m) c = None")
    case True
    then show ?thesis by (simp add: solo.simps [of _ _ "Range (c # ks)"] Cons.IH)
  next
    case reg: False
    obtain e s1 where w: "WriteJSON fails c p (srv m) = (e, s1)"
      by (cases "WriteJSON fails c p (srv m)")
    show ?thesis
    proof (cases e)
      case None
      have x: "exec fails p (Range (c # ks)) m = Some (Range ks, m\<lparr>srv := s1\<rparr>)"
        using w None by (simp add: reg)
      have r: "range_connections (c # ks) fails p (srv m) = range_connections ks fails p s1"
        using w None by (simp add: reg)
      show ?thesis
        unfolding r by (subst solo.simps) (simp add: x Cons.IH del: exec.simps)
    next
      case (Some err)
      let ?s2 = "Close c (log_Printf ''WebSocket write failed'' s1)"
      have x: "exec fails p (Range (c # ks)) m = Some (Delete c ks, m\<lparr>srv := ?s2\<rparr>)"
        using w Some by (simp add: reg)
      have r: "range_connections (c # ks) fails p (srv m) =
          range_connections ks fails p (delete_conn c ?s2)"
        using w Some by (simp add: reg)
      have d: "solo fails p (Delete c ks) (m\<lparr>srv := ?s2\<rparr>) =
          solo fails p (Range ks) (m\<lparr>srv := delete_conn c ?s2\<rparr>)"
        by (subst solo.simps) simp
      show ?thesis
        unfolding r by (subst solo.simps) (simp add: x d Cons.IH del: exec.simps)
    qed
  qed
qed

lemma solo_broadcastPosition:
  "\<not> writer m \<Longrightarrow>
   solo fails p (RLock ks) m = m\<lparr>srv := broadcastPosition ks fails p (srv m)\<rparr>"
  by (simp add: solo.simps [of _ _ "RLock ks"] solo_Range broadcastPosition_def)


text \<open>
  C2: the loop of \<^verbatim>\<open>broadcastPosition\<close> deletes from the map while it holds the read lock
  only. Two broadcasts start on three viewers, and the write to viewer 2 fails. After the
  schedule 0, 0, 1, 1 both hold the read lock (two readers, no writer); goroutine 0 is in
  its loop with 2 and 3 still to come, and goroutine 1 is about to delete 2: a deletion
  while another shared-mode iteration is in progress. The next step of goroutine 1 takes
  2 out of the map under goroutine 0.
\<close>

theorem C2_delete_under_read_lock:
  "map_option snd (run (\<lambda>c. c = 2) berlin [0, 0, 1, 1] two_broadcasts) =
     Some [Range [2, 3], Delete 2 [1, 3]] \<and>
   map_option (\<lambda>(m, ts). (readers m, writer m))
     (run (\<lambda>c. c = 2) berlin [0, 0, 1, 1] two_broadcasts) = Some (2, False) \<and>
   delete_during_iteration [Range [2, 3], Delete 2 [1, 3]] \<and>
   map_option (\<lambda>(m, ts). (connections (srv m) 2, ts))
     (run (\<lambda>c. c = 2) berlin [0, 0, 1, 1, 1] two_broadcasts) =
     Some (None, [Range [2, 3], Range [1, 3]])"
proof -
  have "delete_during_iteration [Range [2, 3], Delete 2 [1, 3]]"
    unfolding delete_during_iteration_def
    by (rule exI [of _ 1], simp, rule exI [of _ 0], simp)
  then show ?thesis
    by (simp add: two_broadcasts_def three_viewers_def WriteJSON_def Close_def log_Printf_def
          delete_conn_def)
qed

text \<open>
  The deletion of \<^verbatim>\<open>handleWebSocket\<close>, under the write lock, is never met by an iteration:
  the invariant of the lock holds along every schedule, and under it no goroutine is in
  the loop while another is at \<open>DeleteLocked\<close>.
\<close>

lemma filter_update_length:
  "i < length ts \<Longrightarrow>
   length (filter P (ts[i := x])) + (if P (ts ! i) then 1 else 0) =
     length (filter P ts) + (if P x then 1 else 0)"
proof (induction ts arbitrary: i)
  case Nil
  then show ?case by simp
next
  case (Cons a ts)
  then show ?case by (cases i) auto
qed

lemma exec_lock_inv:
  assumes i: "i < length ts" and x: "exec fails p (ts ! i) m = Some (pc', m')"
    and inv: "lock_inv (m, ts)"
  shows "lock_inv (m', ts[i := pc'])"
proof -
  note r = filter_update_length [OF i, of holds_read pc']
  note w = filter_update_length [OF i, of holds_write pc']
  from x inv r w show ?thesis
    by (cases "(fails, p, ts ! i, m)" rule: exec.cases)
       (auto simp: lock_inv_def split: if_splits prod.splits option.splits)
qed

lemma run_lock_inv:
  "run fails p sched cfg = Some cfg' \<Longrightarrow> lock_inv cfg \<Longrightarrow> lock_inv cfg'"
proof (induction sched arbitrary: cfg)
  case Nil
  then show ?case by simp
next
  case (Cons i sched)
  obtain m ts where cfg: "cfg = (m, ts)" by (cases cfg)
  from Cons.prems(1) cfg obtain pc' m' where
    i: "i < length ts" and x: "exec fails p (ts ! i) m = Some (pc', m')"
    and rest: "run fails p sched (m', ts[i := pc']) = Some cfg'"
    by (auto split: if_splits option.splits)
  from exec_lock_inv [OF i x] Cons.prems(2) cfg have "lock_inv (m', ts[i := pc'])" by simp
  with Cons.IH rest show ?case by blast
qed

lemma lock_inv_exclusive:
  assumes inv: "lock_inv (m, ts)" and i: "i < length ts" and d: "ts ! i = DeleteLocked c"
    and j: "j < length ts"
  shows "\<not> iterating (ts ! j)"
proof
  assume it: "iterating (ts ! j)"
  from i d have "DeleteLocked c \<in> set ts" by (metis nth_mem)
  moreover have "holds_write (DeleteLocked c)" by simp
  ultimately have "filter holds_write ts \<noteq> []" unfolding filter_empty_conv by blast
  with inv have "writer m" by (auto simp: lock_inv_def split: if_splits)
  with inv have "filter holds_read ts = []" unfolding lock_inv_def by auto
  moreover from it have "holds_read (ts ! j)" by (cases "ts ! j") simp_all
  with j have "ts ! j \<in> set (filter holds_read ts)" by simp
  ultimately show False by simp
qed

end
